theory Spec2Isabelle
  imports Main "HOL-Library.Word"
begin

unbundle bit_operations_syntax

section \<open>The ARM emulator core of \<^verbatim>\<open>src/lib/wasm/emulator.cpp\<close>\<close>

text \<open>
  A shallow embedding of the class \<^verbatim>\<open>ARMEmulatorCore\<close>. The C++ integer types
  \<^verbatim>\<open>uint8_t\<close>, \<^verbatim>\<open>uint32_t\<close> and \<^verbatim>\<open>uint64_t\<close> are words of that width, so
  \<open>+\<close>, \<open>-\<close> and \<open>*\<close> wrap around as they do in the source. Every member function takes
  the object as a record and returns it updated next to its C++ return value.
\<close>

type_synonym u8 = "8 word"
type_synonym u32 = "32 word"
type_synonym u64 = "64 word"

subsection \<open>Operators on \<^verbatim>\<open>uint32_t\<close>\<close>

text \<open>
  \<^verbatim>\<open>(w >> n) & m\<close> with a constant \<open>n < 32\<close>, the way every instruction field is read, and
  the same expression converted to \<^verbatim>\<open>bool\<close>.
\<close>

definition field :: "u32 \<Rightarrow> nat \<Rightarrow> u32 \<Rightarrow> u32" where
  "field w n m = drop_bit n w AND m"

definition flag :: "u32 \<Rightarrow> nat \<Rightarrow> bool" where
  "flag w n = (field w n 1 \<noteq> 0)"

text \<open>
  Shifts by a count computed at run time. The module is built for wasm32 (it includes
  \<^verbatim>\<open>emscripten.h\<close>), where \<^verbatim>\<open>i32.shl\<close>, \<^verbatim>\<open>i32.shr_u\<close> and \<^verbatim>\<open>i32.shr_s\<close> use the count
  modulo 32; C++ itself leaves a count of 32 or more undefined. \<open>sar32\<close> is \<^verbatim>\<open>>>\<close> on
  \<^verbatim>\<open>int32_t\<close>, which keeps the sign.
\<close>

definition shl32 :: "u32 \<Rightarrow> u32 \<Rightarrow> u32" where
  "shl32 x n = push_bit (unat n mod 32) x"

definition shr32 :: "u32 \<Rightarrow> u32 \<Rightarrow> u32" where
  "shr32 x n = drop_bit (unat n mod 32) x"

definition sar32 :: "u32 \<Rightarrow> u32 \<Rightarrow> u32" where
  "sar32 x n = signed_drop_bit (unat n mod 32) x"

subsection \<open>State\<close>

text \<open>
  The data members. \<open>registers\<close> is the array \<^verbatim>\<open>uint32_t registers[17]\<close> (R0 to R15 and
  CPSR at index 16). \<open>memory\<close> is the pointer \<^verbatim>\<open>uint8_t* memory\<close>: \<open>None\<close> is
  \<^verbatim>\<open>nullptr\<close>, \<open>Some buf\<close> an allocated buffer with the bytes \<open>buf\<close>.
\<close>

record emu =
  registers :: "u32 list"
  memory :: "u8 list option"
  memorySize :: u32
  memoryCapacity :: u32
  isRunning :: bool
  pc :: u32
  sp :: u32
  lr :: u32
  instructionCount :: u64

text \<open>The constructor: no memory, everything else zero.\<close>

definition createEmulator :: emu where
  "createEmulator =
     \<lparr>registers = replicate 17 0, memory = None, memorySize = 0, memoryCapacity = 0,
      isRunning = False, pc = 0, sp = 0, lr = 0, instructionCount = 0\<rparr>"

text \<open>
  \<^verbatim>\<open>init\<close>. Whether \<^verbatim>\<open>calloc\<close> returns a buffer is decided outside the program, so it is
  the argument \<open>calloc_ok\<close>. The registers other than R13 and R15 and the CPSR are not
  assigned.
\<close>

definition init :: "bool \<Rightarrow> emu \<Rightarrow> u32 \<Rightarrow> bool \<times> emu" where
  "init calloc_ok s initialSize =
     (let cap = (if initialSize > 0 then initialSize else 64 * 1024 * 1024);
          s1 = s\<lparr>memoryCapacity := cap\<rparr>
      in if \<not> calloc_ok then (False, s1\<lparr>memory := None\<rparr>)
         else
           let s2 = s1\<lparr>memory := Some (replicate (unat cap) 0), memorySize := cap,
                       isRunning := False, pc := 0, sp := cap - 4, lr := 0,
                       instructionCount := 0\<rparr>;
               s3 = s2\<lparr>registers := (registers s2)[13 := sp s2]\<rparr>;
               s4 = s3\<lparr>registers := (registers s3)[15 := pc s3]\<rparr>
           in (True, s4))"

text \<open>
  An initialized engine, as a successful \<^verbatim>\<open>init\<close> leaves it and every later operation
  keeps it: \<^verbatim>\<open>memory\<close> is not null and holds \<^verbatim>\<open>memoryCapacity\<close> bytes, the logical size
  does not exceed the capacity, and the register array has its 17 entries.
\<close>

definition initialized :: "emu \<Rightarrow> bool" where
  "initialized s =
     (map_option length (memory s) = Some (unat (memoryCapacity s))
      \<and> memorySize s \<le> memoryCapacity s
      \<and> length (registers s) = 17)"

subsection \<open>Memory operations\<close>

text \<open>
  The results are options: \<open>None\<close> stands for a call that C++ gives no result, because it
  copies from or to bytes outside the allocated buffer, or because the doubling loop of
  \<^verbatim>\<open>ensureMemory\<close> never ends. \<open>Some (b, s)\<close> is the return value \<open>b\<close> and the object
  afterwards.
\<close>

text \<open>The loop \<^verbatim>\<open>while (newCapacity < size) newCapacity *= 2;\<close> on \<^verbatim>\<open>uint32_t\<close>.\<close>

partial_function (option) growCapacity :: "u32 \<Rightarrow> u32 \<Rightarrow> u32 option" where
  "growCapacity newCapacity sz =
     (if newCapacity < sz then growCapacity (newCapacity * 2) sz else Some newCapacity)"

declare growCapacity.simps [code]

text \<open>
  \<^verbatim>\<open>ensureMemory\<close>; \<open>realloc_ok\<close> says whether \<^verbatim>\<open>realloc\<close> returns a buffer. The new
  buffer keeps the old bytes and is zero from \<^verbatim>\<open>memoryCapacity\<close> on.
\<close>

definition ensureMemory :: "bool \<Rightarrow> emu \<Rightarrow> u32 \<Rightarrow> (bool \<times> emu) option" where
  "ensureMemory realloc_ok s sz =
     (if sz \<le> memoryCapacity s then Some (True, s)
      else case growCapacity (memoryCapacity s * 2) sz of
        None \<Rightarrow> None
      | Some newCapacity \<Rightarrow>
          if \<not> realloc_ok then Some (False, s)
          else case memory s of
            None \<Rightarrow> None
          | Some buf \<Rightarrow>
              Some (True, s\<lparr>memory := Some (take (unat (memoryCapacity s)) buf
                                 @ replicate (unat newCapacity - unat (memoryCapacity s)) 0),
                            memoryCapacity := newCapacity\<rparr>))"

text \<open>
  \<^verbatim>\<open>writeMemory(address, data, length)\<close>: \<open>data\<close> is the caller's buffer, of which
  \<open>len\<close> bytes are copied to offset \<open>address\<close>.
\<close>

definition writeMemory :: "bool \<Rightarrow> emu \<Rightarrow> u32 \<Rightarrow> u8 list \<Rightarrow> u32 \<Rightarrow> (bool \<times> emu) option" where
  "writeMemory realloc_ok s address data len =
     (if memory s = None then Some (False, s)
      else
        case (if address + len > memoryCapacity s
              then ensureMemory realloc_ok s (address + len) else Some (True, s)) of
          None \<Rightarrow> None
        | Some (grown, s1) \<Rightarrow>
            if \<not> grown then Some (False, s1)
            else case memory s1 of
              None \<Rightarrow> None
            | Some buf \<Rightarrow>
                if unat len > length data \<or> unat address + unat len > length buf then None
                else
                  let s2 = s1\<lparr>memory := Some (take (unat address) buf @ take (unat len) data
                                              @ drop (unat address + unat len) buf)\<rparr>
                  in Some (True, if address + len > memorySize s2
                                 then s2\<lparr>memorySize := address + len\<rparr> else s2))"

text \<open>
  \<^verbatim>\<open>readMemory(address, output, length)\<close>: the second component is what is copied to
  \<^verbatim>\<open>output\<close>, nothing when the call returns false.
\<close>

definition readMemory :: "emu \<Rightarrow> u32 \<Rightarrow> u32 \<Rightarrow> (bool \<times> u8 list) option" where
  "readMemory s address len =
     (case memory s of
        None \<Rightarrow> Some (False, [])
      | Some buf \<Rightarrow>
          if address + len > memorySize s then Some (False, [])
          else if unat address + unat len > length buf then None
          else Some (True, take (unat len) (drop (unat address) buf)))"

definition getMemorySize :: "emu \<Rightarrow> u32" where
  "getMemorySize s = memorySize s"

subsection \<open>Register operations\<close>

definition setRegister :: "emu \<Rightarrow> u8 \<Rightarrow> u32 \<Rightarrow> emu" where
  "setRegister s reg v =
     (if reg < 16 then
        let s1 = s\<lparr>registers := (registers s)[unat reg := v]\<rparr>;
            s2 = (if reg = 13 then s1\<lparr>sp := v\<rparr> else s1)
        in (if reg = 15 then s2\<lparr>pc := v\<rparr> else s2)
      else if reg = 16 then s\<lparr>registers := (registers s)[16 := v]\<rparr>
      else s)"

definition getRegister :: "emu \<Rightarrow> u8 \<Rightarrow> u32" where
  "getRegister s reg =
     (if reg < 16 then registers s ! unat reg
      else if reg = 16 then registers s ! 16
      else 0)"

definition getPC :: "emu \<Rightarrow> u32" where
  "getPC s = pc s"

definition setPC :: "emu \<Rightarrow> u32 \<Rightarrow> emu" where
  "setPC s v = (let s1 = s\<lparr>pc := v\<rparr> in s1\<lparr>registers := (registers s1)[15 := v]\<rparr>)"

definition getInstructionCount :: "emu \<Rightarrow> u64" where
  "getInstructionCount s = instructionCount s"

subsection \<open>Condition codes\<close>

text \<open>\<^verbatim>\<open>checkCondition\<close>: the switch over the condition field, on the flags of \<^verbatim>\<open>registers[16]\<close>.\<close>

definition checkCondition :: "emu \<Rightarrow> u32 \<Rightarrow> bool" where
  "checkCondition s cond =
     (let cpsr = registers s ! 16;
          N = flag cpsr 31; Z = flag cpsr 30; C = flag cpsr 29; V = flag cpsr 28
      in if cond = 0x0 then Z
         else if cond = 0x1 then \<not> Z
         else if cond = 0x2 then C
         else if cond = 0x3 then \<not> C
         else if cond = 0x4 then N
         else if cond = 0x5 then \<not> N
         else if cond = 0x6 then V
         else if cond = 0x7 then \<not> V
         else if cond = 0x8 then C \<and> \<not> Z
         else if cond = 0x9 then \<not> C \<or> Z
         else if cond = 0xA then N = V
         else if cond = 0xB then N \<noteq> V
         else if cond = 0xC then \<not> Z \<and> N = V
         else if cond = 0xD then Z \<or> N \<noteq> V
         else True)"

subsection \<open>Data processing\<close>

text \<open>
  The second operand of \<^verbatim>\<open>executeDataProcessing\<close>, split into the shift amount, the
  switch over the shift type and the choice between the immediate and the register form.
  A set bit 4 takes the amount from bits 11 to 7, a clear bit 4 from the low byte of
  \<^verbatim>\<open>registers[Rs]\<close>.
\<close>

definition shiftAmount :: "emu \<Rightarrow> u32 \<Rightarrow> u32" where
  "shiftAmount s instruction =
     (if flag instruction 4 then field instruction 7 0x1F
      else (registers s ! unat (field instruction 8 0xF)) AND 0xFF)"

definition barrelShift :: "u32 \<Rightarrow> u32 \<Rightarrow> u32 \<Rightarrow> u32" where
  "barrelShift shiftType op2 amount =
     (if shiftType = 0x0 then shl32 op2 amount
      else if shiftType = 0x1 then shr32 op2 amount
      else if shiftType = 0x2 then sar32 op2 amount
      else if shiftType = 0x3 then shr32 op2 amount OR shl32 op2 (32 - amount)
      else op2)"

definition operand2 :: "emu \<Rightarrow> u32 \<Rightarrow> u32" where
  "operand2 s instruction =
     (if flag instruction 25 then
        let imm = instruction AND 0xFF;
            rotate = field instruction 8 0xF * 2
        in shr32 imm rotate OR shl32 imm (32 - rotate)
      else
        barrelShift (field instruction 5 0x3) (registers s ! unat (instruction AND 0xF))
          (shiftAmount s instruction))"

text \<open>
  The switch over \<^verbatim>\<open>op\<close>: the result, the carry and the S bit after it (TST, TEQ, CMP and
  CMN set it). \<open>cin\<close> is \<^verbatim>\<open>(registers[16] >> 29) & 1\<close>.
\<close>

definition alu :: "u32 \<Rightarrow> u32 \<Rightarrow> u32 \<Rightarrow> u32 \<Rightarrow> bool \<Rightarrow> u32 \<times> bool \<times> bool" where
  "alu op op1 op2 cin S =
     (if op = 0x0 then (op1 AND op2, False, S)
      else if op = 0x1 then (op1 XOR op2, False, S)
      else if op = 0x2 then (op1 - op2, op1 \<ge> op2, S)
      else if op = 0x3 then (op2 - op1, op2 \<ge> op1, S)
      else if op = 0x4 then (op1 + op2, op1 + op2 < op1, S)
      else if op = 0x5 then (op1 + op2 + cin, op1 + op2 + cin < op1, S)
      else if op = 0x6 then (op1 - op2 - (1 - cin), op1 - op2 - (1 - cin) < op1, S)
      else if op = 0x7 then (op2 - op1 - (1 - cin), op2 - op1 - (1 - cin) < op2, S)
      else if op = 0x8 then (op1 AND op2, False, True)
      else if op = 0x9 then (op1 XOR op2, False, True)
      else if op = 0xA then (op1 - op2, op1 \<ge> op2, True)
      else if op = 0xB then (op1 + op2, op1 + op2 < op1, True)
      else if op = 0xC then (op1 OR op2, False, S)
      else if op = 0xD then (op2, False, S)
      else if op = 0xE then (op1 AND NOT op2, False, S)
      else if op = 0xF then (NOT op2, False, S)
      else (0, False, S))"

text \<open>The new CPSR: the four top bits cleared, then N, Z and C set from the result.\<close>

definition updateFlags :: "u32 \<Rightarrow> u32 \<Rightarrow> bool \<Rightarrow> u32" where
  "updateFlags cpsr result carry =
     (let c0 = cpsr AND NOT 0xF0000000;
          c1 = c0 OR push_bit 31 (field result 31 1);
          c2 = c1 OR push_bit 30 (if result = 0 then 1 else 0);
          c3 = c2 OR push_bit 29 (if carry then 1 else 0)
      in c3)"

text \<open>
  The switch on the fields and operands of an instruction word: \<^verbatim>\<open>op\<close> from bits 24 to 21,
  \<^verbatim>\<open>op1\<close> from \<^verbatim>\<open>registers[Rn]\<close>, \<^verbatim>\<open>op2\<close> from the shifter and \<^verbatim>\<open>S\<close> from bit 20.
\<close>

definition aluOutcome :: "emu \<Rightarrow> u32 \<Rightarrow> u32 \<times> bool \<times> bool" where
  "aluOutcome s instruction =
     (let op = field instruction 21 0xF;
          S0 = flag instruction 20;
          Rn = unat (field instruction 16 0xF);
          op1 = registers s ! Rn;
          op2 = operand2 s instruction
      in alu op op1 op2 (field (registers s ! 16) 29 1) S0)"

definition executeDataProcessing :: "emu \<Rightarrow> u32 \<Rightarrow> bool \<times> emu" where
  "executeDataProcessing s instruction =
     (let op = field instruction 21 0xF;
          Rd = unat (field instruction 12 0xF);
          (result, carry, S) = aluOutcome s instruction;
          s1 = (if op < 0x8 \<or> op > 0xB
                then (if Rd = 15 then s\<lparr>pc := result\<rparr>
                      else s\<lparr>registers := (registers s)[Rd := result]\<rparr>)
                else s);
          s2 = (if S \<and> (Rd \<noteq> 15 \<or> op \<ge> 0x8)
                then s1\<lparr>registers :=
                          (registers s1)[16 := updateFlags (registers s1 ! 16) result carry]\<rparr>
                else s1)
      in (True, s2))"


subsection \<open>Branch\<close>

definition branchOffset :: "u32 \<Rightarrow> u32" where
  "branchOffset instruction =
     (let offset = push_bit 2 (instruction AND 0xFFFFFF)
      in if offset AND 0x2000000 \<noteq> 0 then offset OR 0xFC000000 else offset)"

definition executeBranch :: "emu \<Rightarrow> u32 \<Rightarrow> bool \<times> emu" where
  "executeBranch s instruction =
     (let L = flag instruction 24;
          offset = branchOffset instruction;
          s1 = (if L then (let s' = s\<lparr>lr := pc s + 4\<rparr>
                           in s'\<lparr>registers := (registers s')[14 := lr s']\<rparr>)
                else s);
          s2 = s1\<lparr>pc := pc s1 + 8 + offset\<rparr>
      in (True, s2\<lparr>registers := (registers s2)[15 := pc s2]\<rparr>))"

subsection \<open>Load and store\<close>

text \<open>
  \<^verbatim>\<open>*(uint32_t*)(memory + address)\<close> read and written, four bytes in little-endian order
  as on wasm32.
\<close>

definition load32 :: "u8 list \<Rightarrow> nat \<Rightarrow> u32" where
  "load32 buf a =
     ucast (buf ! a) OR push_bit 8 (ucast (buf ! (a + 1)))
       OR push_bit 16 (ucast (buf ! (a + 2))) OR push_bit 24 (ucast (buf ! (a + 3)))"

definition store32 :: "u8 list \<Rightarrow> nat \<Rightarrow> u32 \<Rightarrow> u8 list" where
  "store32 buf a v =
     buf[a := ucast v, a + 1 := ucast (drop_bit 8 v), a + 2 := ucast (drop_bit 16 v),
         a + 3 := ucast (drop_bit 24 v)]"

text \<open>
  \<^verbatim>\<open>executeLoadStore\<close>. \<open>accessWidth\<close> is \<^verbatim>\<open>B ? 1 : 4\<close>, \<open>loadStoreOffset\<close> the local
  \<^verbatim>\<open>offset\<close>, \<open>indexedAddress\<close> the expression \<^verbatim>\<open>U ? (baseAddr + offset) : (baseAddr - offset)\<close>
  and \<open>loadStoreAddress\<close> the local \<^verbatim>\<open>address\<close>. The range check adds in \<^verbatim>\<open>uint32_t\<close>.
  An access that passes it and still lies outside the buffer has no result in C++:
  \<open>None\<close>.
\<close>

definition accessWidth :: "u32 \<Rightarrow> nat" where
  "accessWidth instruction = (if flag instruction 22 then 1 else 4)"

definition loadStoreOffset :: "emu \<Rightarrow> u32 \<Rightarrow> u32" where
  "loadStoreOffset s instruction =
     (if flag instruction 25 then instruction AND 0xFFF
      else registers s ! unat (instruction AND 0xF))"

definition indexedAddress :: "emu \<Rightarrow> u32 \<Rightarrow> u32" where
  "indexedAddress s instruction =
     (let baseAddr = registers s ! unat (field instruction 16 0xF);
          offset = loadStoreOffset s instruction
      in if flag instruction 23 then baseAddr + offset else baseAddr - offset)"

definition loadStoreAddress :: "emu \<Rightarrow> u32 \<Rightarrow> u32" where
  "loadStoreAddress s instruction =
     (if flag instruction 24 then indexedAddress s instruction
      else registers s ! unat (field instruction 16 0xF))"

definition executeLoadStore :: "emu \<Rightarrow> u32 \<Rightarrow> (bool \<times> emu) option" where
  "executeLoadStore s instruction =
     (let L = flag instruction 20;
          B = flag instruction 22;
          Rn = unat (field instruction 16 0xF);
          Rd = unat (field instruction 12 0xF);
          P = flag instruction 24;
          address = loadStoreAddress s instruction
      in case memory s of
           None \<Rightarrow> Some (False, s)
         | Some buf \<Rightarrow>
             if address + of_nat (accessWidth instruction) > memorySize s then Some (False, s)
             else if unat address + accessWidth instruction > length buf then None
             else
               let s1 = (if L then
                           (let s' = s\<lparr>registers := (registers s)
                                       [Rd := (if B then ucast (buf ! unat address)
                                               else load32 buf (unat address))]\<rparr>
                            in if Rd = 15 then s'\<lparr>pc := registers s' ! Rd\<rparr> else s')
                         else
                           s\<lparr>memory := Some
                               (if B then buf[unat address := ucast (registers s ! Rd AND 0xFF)]
                                else store32 buf (unat address) (registers s ! Rd))\<rparr>);
                   s2 = (if \<not> P
                         then s1\<lparr>registers := (registers s1)
                                   [Rn := indexedAddress s instruction]\<rparr>
                         else s1)
               in Some (True, s2))"

subsection \<open>The decoder\<close>

definition executeInstruction :: "emu \<Rightarrow> u32 \<Rightarrow> (bool \<times> emu) option" where
  "executeInstruction s instruction =
     (if memory s = None then Some (False, s)
      else
        let s1 = s\<lparr>instructionCount := instructionCount s + 1\<rparr>;
            opcode = field instruction 26 0x3;
            cond = field instruction 28 0xF
        in if \<not> checkCondition s1 cond then Some (True, s1)
           else if opcode = 0x0 \<and> field instruction 25 0x1 = 0
             then Some (executeDataProcessing s1 instruction)
           else if opcode = 0x2 then Some (executeBranch s1 instruction)
           else if opcode = 0x1 \<or> (opcode = 0x0 \<and> field instruction 25 0x1 = 1)
             then executeLoadStore s1 instruction
           else Some (False, s1))"

subsection \<open>A small engine for examples\<close>

text \<open>A fresh engine after \<^verbatim>\<open>init(16)\<close>: sixteen bytes of memory.\<close>

definition engine16 :: emu where
  "engine16 = snd (init True createEmulator 16)"


text \<open>The example engine with R1 set to 5.\<close>

definition engineA :: emu where
  "engineA = setRegister engine16 1 5"

text \<open>The example engine with R1 set to \<open>0xFFFFFFFE\<close>, and with R0 set to 4.\<close>

definition engineB :: emu where
  "engineB = setRegister engine16 1 0xFFFFFFFE"

definition engineC :: emu where
  "engineC = setRegister engine16 0 4"

text \<open>The example engine with R0 set to \<open>0x80000001\<close> and R2 to \<open>0x100\<close>.\<close>

definition engineR :: emu where
  "engineR = setRegister (setRegister engine16 0 0x80000001) 2 0x100"

section \<open>Basic facts\<close>

lemma engine16_eq:
  "engine16 = \<lparr>registers = [0, 0, 0, 0, 0, 0, 0, 0, 0, 0, 0, 0, 0, 12, 0, 0, 0],
      memory = Some [0, 0, 0, 0, 0, 0, 0, 0, 0, 0, 0, 0, 0, 0, 0, 0],
      memorySize = 16, memoryCapacity = 16, isRunning = False, pc = 0,
      sp = 12, lr = 0, instructionCount = 0\<rparr>"
  by code_simp

lemma initialized_engine16: "initialized engine16"
  by (simp add: engine16_eq initialized_def)



lemma engineR_eq:
  "engineR = \<lparr>registers = [0x80000001, 0, 0x100, 0, 0, 0, 0, 0, 0, 0, 0, 0, 0, 12, 0, 0, 0],
      memory = Some [0, 0, 0, 0, 0, 0, 0, 0, 0, 0, 0, 0, 0, 0, 0, 0],
      memorySize = 16, memoryCapacity = 16, isRunning = False, pc = 0,
      sp = 12, lr = 0, instructionCount = 0\<rparr>"
  by code_simp

lemma engineA_eq:
  "engineA = \<lparr>registers = [0, 5, 0, 0, 0, 0, 0, 0, 0, 0, 0, 0, 0, 12, 0, 0, 0],
      memory = Some [0, 0, 0, 0, 0, 0, 0, 0, 0, 0, 0, 0, 0, 0, 0, 0],
      memorySize = 16, memoryCapacity = 16, isRunning = False, pc = 0,
      sp = 12, lr = 0, instructionCount = 0\<rparr>"
  by code_simp

lemma engineB_eq:
  "engineB = \<lparr>registers = [0, 0xFFFFFFFE, 0, 0, 0, 0, 0, 0, 0, 0, 0, 0, 0, 12, 0, 0, 0],
      memory = Some [0, 0, 0, 0, 0, 0, 0, 0, 0, 0, 0, 0, 0, 0, 0, 0],
      memorySize = 16, memoryCapacity = 16, isRunning = False, pc = 0,
      sp = 12, lr = 0, instructionCount = 0\<rparr>"
  by code_simp


lemma reg_index_less: "unat (field w n 0xF) < 16"
  unfolding field_def
  using word_and_le1 [of "drop_bit n w" 15] by (simp add: word_le_nat_alt)

lemma checkCondition_count [simp]:
  "checkCondition (s\<lparr>instructionCount := c\<rparr>) cond = checkCondition s cond"
  by (simp add: checkCondition_def)

lemma executeDataProcessing_frame:
  "executeDataProcessing s i = (ok, s') \<Longrightarrow>
     ok \<and> instructionCount s' = instructionCount s \<and> memory s' = memory s
     \<and> memorySize s' = memorySize s \<and> memoryCapacity s' = memoryCapacity s
     \<and> length (registers s') = length (registers s)"
  by (auto simp add: executeDataProcessing_def Let_def split: prod.splits if_splits)

lemma executeBranch_frame:
  "executeBranch s i = (ok, s') \<Longrightarrow>
     ok \<and> instructionCount s' = instructionCount s \<and> memory s' = memory s
     \<and> memorySize s' = memorySize s \<and> memoryCapacity s' = memoryCapacity s
     \<and> length (registers s') = length (registers s)"
  by (auto simp add: executeBranch_def Let_def split: prod.splits if_splits)

lemma executeLoadStore_count:
  "executeLoadStore s i = Some (ok, s') \<Longrightarrow> instructionCount s' = instructionCount s"
  by (auto simp add: executeLoadStore_def Let_def split: option.splits if_splits)

lemma wrapped_range:
  fixes a :: u32
  assumes "\<not> a + of_nat w > m" and "m \<le> c" and "unat a + w > unat c" and "w \<le> 4"
  shows "2 ^ 32 \<le> unat a + w"
proof (rule ccontr)
  assume "\<not> 2 ^ 32 \<le> unat a + w"
  then have lt: "unat a + w < 2 ^ 32" by simp
  have w: "unat (of_nat w :: u32) = w"
    using assms(4) by (simp add: unat_of_nat)
  from lt w have "unat (a + of_nat w) = unat a + w"
    using unat_add_lem [of a "of_nat w"] by simp
  moreover from assms(1,2) have "unat (a + of_nat w) \<le> unat c"
    by (simp add: word_le_nat_alt not_less)
  ultimately show False using assms(3) by simp
qed

lemma executeLoadStore_None:
  assumes "initialized s" and "executeLoadStore s i = None"
  shows "2 ^ 32 \<le> unat (loadStoreAddress s i) + accessWidth i"
proof -
  from assms obtain buf where buf: "memory s = Some buf" "length buf = unat (memoryCapacity s)"
    by (auto simp add: initialized_def split: option.splits)
  have w4: "accessWidth i \<le> 4" by (simp add: accessWidth_def)
  from assms(2) buf have chk:
    "\<not> loadStoreAddress s i + of_nat (accessWidth i) > memorySize s"
    and out: "unat (loadStoreAddress s i) + accessWidth i > unat (memoryCapacity s)"
    by (auto simp add: executeLoadStore_def Let_def split: if_splits)
  from assms(1) have le: "memorySize s \<le> memoryCapacity s"
    by (simp add: initialized_def)
  show ?thesis by (rule wrapped_range [OF chk le out w4])
qed

lemma loadStoreAddress_count [simp]:
  "loadStoreAddress (s\<lparr>instructionCount := c\<rparr>) i = loadStoreAddress s i"
  by (simp add: loadStoreAddress_def indexedAddress_def loadStoreOffset_def)

lemma initialized_count [simp]:
  "initialized (s\<lparr>instructionCount := c\<rparr>) = initialized s"
  by (simp add: initialized_def)

subsection \<open>The branch offset is a sign extension\<close>

lemma hex_FC000000: "(0xFC000000 :: u32) = NOT (mask 26)" by (simp add: mask_eq_exp_minus_1)
lemma hex_2000000: "(0x2000000 :: u32) = 2 ^ 25" by simp
lemma hex_FFFFFF: "(0xFFFFFF :: u32) = mask 24" by (simp add: mask_eq_exp_minus_1)

lemma sign_extend_aux:
  fixes x :: u32
  assumes hi: "\<And>n. 26 \<le> n \<Longrightarrow> \<not> bit x n"
  shows "(if bit x 25 then x OR NOT (mask 26) else x) = signed_take_bit 25 x"
proof (rule bit_eqI)
  fix n
  assume "possible_bit TYPE(u32) n"
  then have n: "n < 32" by simp
  show "bit (if bit x 25 then x OR NOT (mask 26) else x) n = bit (signed_take_bit 25 x) n"
  proof (cases "n \<le> 25")
    case True
    then show ?thesis using n by (simp add: bit_simps min_def)
  next
    case False
    then have "26 \<le> n" by simp
    with hi have "\<not> bit x n" by blast
    with False n \<open>26 \<le> n\<close> show ?thesis by (simp add: bit_simps min_def)
  qed
qed

lemma branchOffset_sign_extend:
  "branchOffset instruction = signed_take_bit 25 (push_bit 2 (instruction AND 0xFFFFFF))"
proof -
  let ?x = "push_bit 2 (instruction AND mask 24) :: u32"
  have hi: "\<not> bit ?x n" if "26 \<le> n" for n
    using that by (auto simp add: bit_simps)
  have "branchOffset instruction = (if bit ?x 25 then ?x OR NOT (mask 26) else ?x)"
    unfolding branchOffset_def Let_def hex_FC000000 hex_2000000 hex_FFFFFF 
    by (simp only: and_exp_eq_0_iff_not_bit not_not)
  also have "\<dots> = signed_take_bit 25 ?x"
    using hi by (rule sign_extend_aux)
  finally show ?thesis by (simp only: hex_FFFFFF)
qed

subsection \<open>The flag update\<close>









lemma aluOutcome_count [simp]:
  "aluOutcome (s\<lparr>instructionCount := c\<rparr>) i = aluOutcome s i"
  by (simp add: aluOutcome_def operand2_def shiftAmount_def)


subsection \<open>The barrel shifter\<close>

lemma barrelShift_zero: "barrelShift shiftType x 0 = x"
  by (simp add: barrelShift_def shl32_def shr32_def sar32_def)

text \<open>
  The rotate by 0 evaluates \<^verbatim>\<open>op2 << 32\<close>. Were that shift to fill with zeros instead of
  taking the count modulo 32, the rotate would still return its operand.
\<close>

lemma rotate_zero_fill: "shr32 x 0 OR push_bit 32 x = x"
  by (simp add: shr32_def)

subsection \<open>Writing memory\<close>

lemma writeMemory_True:
  assumes "writeMemory realloc_ok s a D len = Some (True, s')"
  shows "\<exists>buf. unat len \<le> length D \<and> unat a + unat len \<le> length buf
           \<and> memory s' = Some (take (unat a) buf @ take (unat len) D
                                 @ drop (unat a + unat len) buf)
           \<and> \<not> a + len > memorySize s'"
proof -
  from assms have mem: "memory s \<noteq> None"
    by (auto simp add: writeMemory_def split: if_splits)
  define r where "r = (if a + len > memoryCapacity s
              then ensureMemory realloc_ok s (a + len) else Some (True, s))"
  from assms mem obtain s1 where r: "r = Some (True, s1)"
    unfolding writeMemory_def r_def [symmetric]
    by (auto split: option.splits prod.splits if_splits)
  from assms mem r obtain buf where buf: "memory s1 = Some buf"
    unfolding writeMemory_def r_def [symmetric]
    by (auto split: option.splits prod.splits if_splits)
  from assms mem r buf show ?thesis
    unfolding writeMemory_def r_def [symmetric]
    by (auto simp add: Let_def not_less split: if_splits)
qed

lemma writeMemory_in_capacity:
  assumes "initialized s" and "unat a + length D \<le> unat (memoryCapacity s)"
  shows "\<exists>s'. writeMemory realloc_ok s a D (of_nat (length D)) = Some (True, s')"
proof -
  from assms(1) obtain buf where buf: "memory s = Some buf" "length buf = unat (memoryCapacity s)"
    by (auto simp add: initialized_def)
  have cap: "unat (memoryCapacity s) < 2 ^ 32" using unsigned_less [of "memoryCapacity s"] by simp
  with assms(2) have lt: "length D < 2 ^ 32" by simp
  then have len: "unat (of_nat (length D) :: u32) = length D" by (simp add: unat_of_nat)
  from assms(2) cap len have "unat (a + of_nat (length D)) = unat a + length D"
    using unat_add_lem [of a "of_nat (length D)"] by simp
  with assms(2) have "\<not> a + of_nat (length D) > memoryCapacity s"
    by (simp add: word_less_nat_alt)
  with buf len assms(2) show ?thesis
    by (simp add: writeMemory_def Let_def)
qed

subsection \<open>Memory after \<^verbatim>\<open>init\<close>\<close>

lemma init_True:
  assumes "init calloc_ok s0 n = (True, s)"
  shows "memory s = Some (replicate (unat (memoryCapacity s)) 0)
         \<and> memorySize s = memoryCapacity s
         \<and> memoryCapacity s = (if n > 0 then n else 64 * 1024 * 1024)
         \<and> length (registers s) = length (registers s0)
         \<and> pc s = 0 \<and> registers s = (registers s0)[13 := memoryCapacity s - 4, 15 := 0]
         \<and> sp s = memoryCapacity s - 4 \<and> lr s = 0 \<and> instructionCount s = 0"
  using assms by (auto simp add: init_def Let_def split: if_splits)

lemma init_initialized:
  assumes "init calloc_ok s0 n = (True, s)" and "length (registers s0) = 17"
  shows "initialized s"
  using init_True [OF assms(1)] assms(2) by (simp add: initialized_def)

lemma below_size_no_wrap:
  fixes a :: u32
  assumes "a < m"
  shows "\<not> a + 1 > m" and "unat a + 1 \<le> unat m"
proof -
  from assms have lt: "unat a < unat m" by (simp add: word_less_nat_alt)
  then show "unat a + 1 \<le> unat m" by simp
  have "unat m < 2 ^ 32" using unsigned_less [of m] by simp
  with lt have "unat (a + 1) = unat a + 1"
    using unat_add_lem [of a 1] by simp
  with lt show "\<not> a + 1 > m" by (simp add: word_less_nat_alt)
qed

lemma readMemory_byte:
  assumes "memory t = Some buf" and "unat (memorySize t) \<le> length buf" and "a < memorySize t"
  shows "readMemory t a 1 = Some (True, [buf ! unat a])"
proof -
  from below_size_no_wrap [OF assms(3)] assms(2)
  have "\<not> a + 1 > memorySize t" and "unat a < length buf" by simp_all
  with assms(1) show ?thesis
    by (simp add: readMemory_def take_Suc_conv_app_nth hd_drop_conv_nth take_Suc)
qed

subsection \<open>Loads inside the logical size\<close>

lemma range_no_wrap:
  fixes a :: u32
  assumes "unat a + w \<le> unat m"
  shows "\<not> a + of_nat w > m"
proof -
  have m: "unat m < 2 ^ 32" using unsigned_less [of m] by simp
  with assms have "w < 2 ^ 32" by simp
  then have w: "unat (of_nat w :: u32) = w" by (simp add: unat_of_nat)
  from assms m w have "unat (a + of_nat w) = unat a + w"
    using unat_add_lem [of a "of_nat w"] by simp
  with assms show ?thesis by (simp add: word_less_nat_alt)
qed

lemma load32_zero: "a + 4 \<le> n \<Longrightarrow> load32 (replicate n 0) a = 0"
  by (simp add: load32_def)

lemma indexedAddress_count [simp]:
  "indexedAddress (s\<lparr>instructionCount := c\<rparr>) i = indexedAddress s i"
  by (simp add: indexedAddress_def loadStoreOffset_def)

lemma load_in_range:
  assumes mem: "memory t = Some buf" and fit: "unat (memorySize t) \<le> length buf"
    and fam: "field i 26 0x3 = 0x1 \<or> (field i 26 0x3 = 0x0 \<and> field i 25 0x1 = 1)"
    and cond: "checkCondition t (field i 28 0xF)"
    and ld: "flag i 20"
    and rng: "unat (loadStoreAddress t i) + accessWidth i \<le> unat (memorySize t)"
  shows "\<exists>t'. executeInstruction t i = Some (True, t')
           \<and> (length (registers t) = 17 \<longrightarrow>
                registers t' ! unat (field i 12 0xF)
                  = (if \<not> flag i 24 \<and> field i 16 0xF = field i 12 0xF
                     then indexedAddress t i
                     else if flag i 22 then ucast (buf ! unat (loadStoreAddress t i))
                     else load32 buf (unat (loadStoreAddress t i))))"
proof -
  let ?t1 = "t\<lparr>instructionCount := instructionCount t + 1\<rparr>"
  let ?Rd = "unat (field i 12 0xF)"
  let ?Rn = "unat (field i 16 0xF)"
  from mem fam cond have e: "executeInstruction t i = executeLoadStore ?t1 i"
    by (auto simp add: executeInstruction_def Let_def)
  have chk: "\<not> loadStoreAddress t i + of_nat (accessWidth i) > memorySize t"
    using rng by (rule range_no_wrap)
  from rng fit have inb: "\<not> unat (loadStoreAddress t i) + accessWidth i > length buf"
    by simp
  have rd: "?Rd < 16" and rn: "?Rn < 16" by (rule reg_index_less)+
  have eq: "(field i 16 0xF = field i 12 0xF) = (?Rn = ?Rd)"
    by (simp add: word_unat_eq_iff)
  from mem ld chk inb rd rn show ?thesis
    unfolding e eq
    by (auto simp add: executeLoadStore_def Let_def)
qed

subsection \<open>Every operation keeps an engine initialized\<close>

text \<open>
  \<open>init_initialized\<close> gives an initialized engine; the operations that return keep it so.
\<close>

lemma growCapacity_Some:
  assumes "growCapacity c sz = Some n"
  shows "sz \<le> n"
  by (rule growCapacity.raw_induct [where P = "\<lambda>c sz n. sz \<le> n", OF _ assms])
     (auto split: if_splits)

lemma initialized_setRegister: "initialized s \<Longrightarrow> initialized (setRegister s reg v)"
  by (simp add: setRegister_def initialized_def Let_def)

lemma initialized_setPC: "initialized s \<Longrightarrow> initialized (setPC s v)"
  by (simp add: setPC_def initialized_def Let_def)

lemma length_store32 [simp]: "length (store32 buf a v) = length buf"
  by (simp add: store32_def)

lemma executeLoadStore_initialized:
  assumes "initialized s" and "executeLoadStore s i = Some (ok, s')"
  shows "initialized s'"
  using assms
  by (auto simp add: executeLoadStore_def initialized_def Let_def split: option.splits if_splits)

lemma executeInstruction_initialized:
  assumes "initialized s" and "executeInstruction s i = Some (ok, s')"
  shows "initialized s'"
proof -
  let ?s1 = "s\<lparr>instructionCount := instructionCount s + 1\<rparr>"
  have i1: "initialized ?s1" using assms(1) by simp
  have dp: "initialized t" if "executeDataProcessing ?s1 i = (b, t)" for b t
    using executeDataProcessing_frame [OF that] i1 by (simp add: initialized_def)
  have br: "initialized t" if "executeBranch ?s1 i = (b, t)" for b t
    using executeBranch_frame [OF that] i1 by (simp add: initialized_def)
  from assms(2) show ?thesis
    using i1 assms(1) dp br executeLoadStore_initialized [OF i1]
    by (auto simp add: executeInstruction_def Let_def split: if_splits)
qed

lemma ensureMemory_initialized:
  assumes "initialized s" and "ensureMemory realloc_ok s sz = Some (ok, s')"
  shows "initialized s' \<and> memorySize s' = memorySize s \<and> (ok \<longrightarrow> sz \<le> memoryCapacity s')"
proof (cases "sz \<le> memoryCapacity s")
  case True
  with assms show ?thesis by (simp add: ensureMemory_def)
next
  case False
  with assms(2) obtain n where n: "growCapacity (memoryCapacity s * 2) sz = Some n"
    by (auto simp add: ensureMemory_def split: option.splits)
  from growCapacity_Some [OF n] have szn: "sz \<le> n" .
  with False have le: "memoryCapacity s \<le> n" by simp
  then have ule: "unat (memoryCapacity s) \<le> unat n" by (simp add: word_le_nat_alt)
  from assms(1) obtain buf where buf: "memory s = Some buf" "length buf = unat (memoryCapacity s)"
    by (auto simp add: initialized_def)
  from assms False n buf le ule szn show ?thesis
    by (auto simp add: ensureMemory_def initialized_def split: if_splits)
qed

lemma writeMemory_initialized:
  assumes "initialized s" and "writeMemory realloc_ok s a D len = Some (ok, s')"
  shows "initialized s'"
proof -
  define r where "r = (if a + len > memoryCapacity s
              then ensureMemory realloc_ok s (a + len) else Some (True, s))"
  from assms(1) have mem: "memory s \<noteq> None" by (auto simp add: initialized_def)
  from assms(2) mem obtain g s1 where r: "r = Some (g, s1)"
    unfolding writeMemory_def r_def [symmetric]
    by (auto split: option.splits prod.splits if_splits)
  have s1: "initialized s1 \<and> memorySize s1 = memorySize s \<and> (g \<longrightarrow> a + len \<le> memoryCapacity s1)"
  proof (cases "a + len > memoryCapacity s")
    case True
    with r have "ensureMemory realloc_ok s (a + len) = Some (g, s1)" by (simp add: r_def)
    from ensureMemory_initialized [OF assms(1) this] show ?thesis .
  next
    case False
    with r assms(1) show ?thesis by (auto simp add: r_def not_less)
  qed
  show ?thesis
  proof (cases g)
    case False
    with assms(2) mem r s1 show ?thesis
      unfolding writeMemory_def r_def [symmetric] by simp
  next
    case True
    from s1 obtain buf where buf: "memory s1 = Some buf" "length buf = unat (memoryCapacity s1)"
      by (auto simp add: initialized_def)
    from assms(2) mem r True buf s1 show ?thesis
      unfolding writeMemory_def r_def [symmetric]
      by (auto simp add: initialized_def Let_def split: if_splits)
  qed
qed

section \<open>Instructions skipped by their condition\<close>

text \<open>
  C4: when the condition field of the instruction word evaluates to false on the current
  CPSR, \<^verbatim>\<open>executeInstruction\<close> on an initialized engine returns true, and the engine
  afterwards is the engine before with the instruction counter one higher: the
  registers R0 to R15, the CPSR, the pc, sp and lr members and the memory are the same.
\<close>

theorem skipped_instruction_frame:
  assumes "initialized s"
    and "\<not> checkCondition s (field instruction 28 0xF)"
  shows "executeInstruction s instruction
           = Some (True, s\<lparr>instructionCount := instructionCount s + 1\<rparr>)"
  using assms
  by (auto simp add: executeInstruction_def initialized_def Let_def split: option.splits)

text \<open>MOVEQ on the fresh engine, whose Z flag is clear.\<close>

theorem skipped_instruction_frame_witness:
  "initialized engine16 \<and> \<not> checkCondition engine16 (field 0x03A0100F 28 0xF)
   \<and> executeInstruction engine16 0x03A0100F
       = Some (True, engine16\<lparr>instructionCount := 1\<rparr>)"
proof -
  have h1: "initialized engine16" by (rule initialized_engine16)
  have h2: "\<not> checkCondition engine16 (field 0x03A0100F 28 0xF)"
    by (simp add: engine16_eq checkCondition_def flag_def field_def)
  have "instructionCount engine16 = 0" by (simp add: engine16_eq)
  with skipped_instruction_frame [OF h1 h2] h1 h2 show ?thesis by simp
qed

section \<open>The instruction counter\<close>

text \<open>
  C5: on an initialized engine every call of \<^verbatim>\<open>executeInstruction\<close> that returns, true or
  false, condition passed or not, leaves the 64-bit instruction counter exactly one
  higher (modulo \<open>2 ^ 64\<close>); the only calls without a result are loads and stores whose
  address plus width passes \<open>2 ^ 32\<close>, where the access leaves the buffer. On an engine
  without memory the call returns false and changes nothing, the counter included.
\<close>

theorem counter_advances_once:
  "(initialized s \<longrightarrow>
      (case executeInstruction s instruction of
         Some (ok, s') \<Rightarrow> instructionCount s' = instructionCount s + 1
       | None \<Rightarrow> 2 ^ 32 \<le> unat (loadStoreAddress s instruction) + accessWidth instruction))
   \<and> (memory s = None \<longrightarrow> executeInstruction s instruction = Some (False, s))"
proof (intro conjI impI)
  assume "memory s = None"
  then show "executeInstruction s instruction = Some (False, s)"
    by (simp add: executeInstruction_def)
next
  assume ini: "initialized s"
  let ?s1 = "s\<lparr>instructionCount := instructionCount s + 1\<rparr>"
  from ini have mem: "memory s \<noteq> None" by (auto simp add: initialized_def)
  show "case executeInstruction s instruction of
         Some (ok, s') \<Rightarrow> instructionCount s' = instructionCount s + 1
       | None \<Rightarrow> 2 ^ 32 \<le> unat (loadStoreAddress s instruction) + accessWidth instruction"
  proof (cases "executeInstruction s instruction")
    case None
    with mem have "executeLoadStore ?s1 instruction = None"
      by (auto simp add: executeInstruction_def Let_def split: if_splits)
    with ini have "2 ^ 32 \<le> unat (loadStoreAddress ?s1 instruction) + accessWidth instruction"
      by (intro executeLoadStore_None) simp_all
    with None show ?thesis by simp
  next
    case (Some r)
    obtain ok s' where r: "r = (ok, s')" by (cases r)
    from Some r mem have "instructionCount s' = instructionCount ?s1"
      by (auto simp add: executeInstruction_def Let_def split: if_splits
            dest: executeDataProcessing_frame executeBranch_frame executeLoadStore_count)
    with Some r show ?thesis by simp
  qed
qed

text \<open>
  An illegal word on the example engine, which returns false with the counter at 1, and
  the same word on an engine that was never initialized.
\<close>

theorem counter_advances_once_witness:
  "initialized engine16
   \<and> map_option (\<lambda>(ok, s'). (ok, instructionCount s')) (executeInstruction engine16 0xEC000000)
        = Some (False, 1)
   \<and> memory createEmulator = None
   \<and> executeInstruction createEmulator 0xEC000000 = Some (False, createEmulator)"
proof -
  have h1: "initialized engine16" by (rule initialized_engine16)
  have h2: "memory createEmulator = None" by (simp add: createEmulator_def)
  have e: "executeInstruction engine16 0xEC000000
             = Some (False, engine16\<lparr>instructionCount := 1\<rparr>)"
    by code_simp
  have c0: "instructionCount engine16 = 0" by (simp add: engine16_eq)
  from counter_advances_once [of engine16 "0xEC000000"] h1 e c0
  have "map_option (\<lambda>(ok, s'). (ok, instructionCount s')) (executeInstruction engine16 0xEC000000)
        = Some (False, 1)" by simp
  moreover from counter_advances_once [of createEmulator "0xEC000000"] h2
  have "executeInstruction createEmulator 0xEC000000 = Some (False, createEmulator)" by simp
  ultimately show ?thesis using h1 h2 by simp
qed

section \<open>Illegal words\<close>

text \<open>
  C3, as the code has it: the condition is checked before the family. For an
  instruction word with bits 27 and 26 both set, \<^verbatim>\<open>executeInstruction\<close> on an initialized
  engine returns false exactly when the condition evaluates to true on the current CPSR,
  and true when the condition fails; in both cases only the instruction counter changes.
\<close>

theorem illegal_word_result:
  assumes "initialized s" and "field instruction 26 0x3 = 0x3"
  shows "executeInstruction s instruction
           = Some (\<not> checkCondition s (field instruction 28 0xF),
                   s\<lparr>instructionCount := instructionCount s + 1\<rparr>)"
  using assms
  by (auto simp add: executeInstruction_def initialized_def Let_def)

text \<open>The illegal word with condition AL fails.\<close>

theorem illegal_word_result_witness:
  "initialized engine16 \<and> field 0xEC000000 26 0x3 = 0x3
   \<and> checkCondition engine16 (field 0xEC000000 28 0xF)
   \<and> executeInstruction engine16 0xEC000000
        = Some (False, engine16\<lparr>instructionCount := 1\<rparr>)"
proof -
  have h1: "initialized engine16" by (rule initialized_engine16)
  have h2: "field 0xEC000000 26 0x3 = 0x3" by (simp add: field_def)
  have h3: "checkCondition engine16 (field 0xEC000000 28 0xF)"
    by (simp add: checkCondition_def field_def)
  have c0: "instructionCount engine16 = 0" by (simp add: engine16_eq)
  from illegal_word_result [OF h1 h2] h3 c0 h1 h2 show ?thesis by simp
qed

text \<open>
  The illegal word \<open>0x0C000000\<close> has condition EQ. On the fresh engine the Z flag is
  clear, and the call returns true.
\<close>

theorem illegal_word_skipped_counterexample:
  "initialized engine16 \<and> field 0x0C000000 26 0x3 = 0x3
   \<and> executeInstruction engine16 0x0C000000
        = Some (True, engine16\<lparr>instructionCount := 1\<rparr>)"
proof -
  have "field 0x0C000000 26 0x3 = 0x3" by (simp add: field_def)
  moreover have "executeInstruction engine16 0x0C000000
        = Some (True, engine16\<lparr>instructionCount := 1\<rparr>)" by code_simp
  ultimately show ?thesis using initialized_engine16 by simp
qed

section \<open>Branches\<close>

text \<open>
  C6: a branch-family word (bits 27 and 26 are 10) whose condition passes sets the pc
  member and R15 to the old pc plus 8 plus the 26-bit sign extension of \<open>imm24 << 2\<close>,
  with 32-bit wrap-around; when bit 24 is set it sets the lr member and R14 to the old pc
  plus 4, and otherwise leaves both as they were.
\<close>

theorem branch_target:
  assumes "initialized s"
    and "field instruction 26 0x3 = 0x2"
    and "checkCondition s (field instruction 28 0xF)"
  shows "\<exists>s'. executeInstruction s instruction = Some (True, s')
           \<and> pc s' = pc s + 8 + signed_take_bit 25 (push_bit 2 (instruction AND 0xFFFFFF))
           \<and> registers s' ! 15 = pc s'
           \<and> lr s' = (if flag instruction 24 then pc s + 4 else lr s)
           \<and> registers s' ! 14 = (if flag instruction 24 then pc s + 4 else registers s ! 14)"
proof -
  from assms(1) have len: "length (registers s) = 17" and mem: "memory s \<noteq> None"
    by (auto simp add: initialized_def)
  let ?s1 = "s\<lparr>instructionCount := instructionCount s + 1\<rparr>"
  from assms mem have "executeInstruction s instruction = Some (executeBranch ?s1 instruction)"
    by (auto simp add: executeInstruction_def Let_def)
  then show ?thesis using len
    by (simp add: executeBranch_def Let_def branchOffset_sign_extend)
qed

text \<open>With PC set to \<open>0x100\<close>, the word \<open>0xEB000000\<close> gives LR \<open>0x104\<close> and PC \<open>0x108\<close>.\<close>

theorem branch_target_witness:
  "initialized (setPC engine16 0x100) \<and> field 0xEB000000 26 0x3 = 0x2
   \<and> checkCondition (setPC engine16 0x100) (field 0xEB000000 28 0xF)
   \<and> map_option (\<lambda>(ok, s'). (ok, lr s', registers s' ! 14, pc s', registers s' ! 15))
        (executeInstruction (setPC engine16 0x100) 0xEB000000)
       = Some (True, 0x104, 0x104, 0x108, 0x108)"
proof -
  have h1: "initialized (setPC engine16 0x100)"
    by (simp add: setPC_def engine16_eq initialized_def)
  have h2: "field 0xEB000000 26 0x3 = 0x2" by (simp add: field_def)
  have h3: "checkCondition (setPC engine16 0x100) (field 0xEB000000 28 0xF)"
    by (simp add: checkCondition_def field_def)
  have p: "pc (setPC engine16 0x100) = 0x100" by (simp add: setPC_def)
  have f: "flag 0xEB000000 24" by (simp add: flag_def field_def)
  have o: "signed_take_bit 25 (push_bit 2 (0xEB000000 AND 0xFFFFFF :: u32)) = 0" by simp
  from branch_target [OF h1 h2 h3] p f o h1 h2 h3 show ?thesis by auto
qed

section \<open>The CPSR after a data-processing instruction\<close>




section \<open>Shifts by zero\<close>

text \<open>
  C7: for a data-processing word in register form (bit 25 clear) whose shift amount is 0,
  whether the amount is read from bits 11 to 7 or from the low byte of R[Rs], the second
  operand is R[Rm] unchanged, for each of the four shift types in bits 6 and 5.
\<close>

theorem shift_by_zero_is_identity:
  assumes "\<not> flag instruction 25" and "shiftAmount s instruction = 0"
  shows "operand2 s instruction = registers s ! unat (instruction AND 0xF)"
  using assms by (simp add: operand2_def barrelShift_zero)

text \<open>
  A rotate right (type 3) by the low byte of R2, which holds \<open>0x100\<close>, applied to R0.
\<close>

theorem shift_by_zero_is_identity_witness:
  "\<not> flag 0xE1A01260 25 \<and> field 0xE1A01260 5 0x3 = 0x3 \<and> shiftAmount engineR 0xE1A01260 = 0
   \<and> operand2 engineR 0xE1A01260 = 0x80000001"
proof -
  have h1: "\<not> flag 0xE1A01260 25" by (simp add: flag_def field_def)
  have h2: "shiftAmount engineR 0xE1A01260 = 0"
    by (simp add: shiftAmount_def flag_def field_def engineR_eq)
  have t: "field 0xE1A01260 5 0x3 = 0x3" by (simp add: field_def)
  have r: "registers engineR ! unat (0xE1A01260 AND 0xF :: u32) = 0x80000001"
    by (simp add: engineR_eq)
  from shift_by_zero_is_identity [OF h1 h2] r h1 h2 t show ?thesis by simp
qed

section \<open>Writing and reading back\<close>

text \<open>
  C8: when \<^verbatim>\<open>writeMemory(a, D)\<close> returns true, \<^verbatim>\<open>readMemory(a, |D|)\<close> on the engine it
  leaves returns true and copies out exactly the bytes \<open>D\<close>. The length is a
  \<^verbatim>\<open>uint32_t\<close>, so \<open>D\<close> has fewer than \<open>2 ^ 32\<close> bytes. By \<open>writeMemory_in_capacity\<close> the
  write does return true whenever the range fits the capacity of an initialized engine.
\<close>

theorem write_then_read:
  assumes "length D < 2 ^ 32"
    and "writeMemory realloc_ok s a D (of_nat (length D)) = Some (True, s')"
  shows "readMemory s' a (of_nat (length D)) = Some (True, D)"
proof -
  have len: "unat (of_nat (length D) :: u32) = length D"
    using assms(1) by (simp add: unat_of_nat)
  from writeMemory_True [OF assms(2)] len obtain buf where
    fit: "unat a + length D \<le> length buf"
    and mem: "memory s' = Some (take (unat a) buf @ D @ drop (unat a + length D) buf)"
    and chk: "\<not> a + of_nat (length D) > memorySize s'"
    by auto
  from fit have "take (length D) (drop (unat a)
                   (take (unat a) buf @ D @ drop (unat a + length D) buf)) = D"
    by simp
  with fit mem chk len show ?thesis
    by (simp add: readMemory_def)
qed

text \<open>
  Four bytes written at offset 14 of the 16-byte engine: the buffer doubles to 32 bytes,
  the logical size becomes 18, and the bytes read back.
\<close>

theorem write_then_read_witness:
  "length [1, 2, 3, 4 :: u8] < 2 ^ 32
   \<and> writeMemory True engine16 14 [1, 2, 3, 4] (of_nat (length [1, 2, 3, 4 :: u8]))
       = Some (True, engine16\<lparr>memory := Some [0, 0, 0, 0, 0, 0, 0, 0, 0, 0, 0, 0, 0, 0, 1, 2,
                                               3, 4, 0, 0, 0, 0, 0, 0, 0, 0, 0, 0, 0, 0, 0, 0],
                               memorySize := 18, memoryCapacity := 32\<rparr>)
   \<and> readMemory (engine16\<lparr>memory := Some [0, 0, 0, 0, 0, 0, 0, 0, 0, 0, 0, 0, 0, 0, 1, 2,
                                          3, 4, 0, 0, 0, 0, 0, 0, 0, 0, 0, 0, 0, 0, 0, 0],
                          memorySize := 18, memoryCapacity := 32\<rparr>)
        14 (of_nat (length [1, 2, 3, 4 :: u8])) = Some (True, [1, 2, 3, 4])"
proof -
  have h1: "length [1, 2, 3, 4 :: u8] < 2 ^ 32" by simp
  have h2: "writeMemory True engine16 14 [1, 2, 3, 4] (of_nat (length [1, 2, 3, 4 :: u8]))
       = Some (True, engine16\<lparr>memory := Some [0, 0, 0, 0, 0, 0, 0, 0, 0, 0, 0, 0, 0, 0, 1, 2,
                                               3, 4, 0, 0, 0, 0, 0, 0, 0, 0, 0, 0, 0, 0, 0, 0],
                               memorySize := 18, memoryCapacity := 32\<rparr>)"
    by code_simp
  from write_then_read [OF h1 h2] h1 h2 show ?thesis by (intro conjI)
qed

section \<open>Memory right after \<^verbatim>\<open>init\<close>\<close>

text \<open>
  C9: after \<^verbatim>\<open>init(n)\<close> has returned true, \<^verbatim>\<open>getMemorySize\<close> is the whole capacity, \<open>n\<close>
  or 64 MiB for \<open>n = 0\<close>, and not 0. So \<^verbatim>\<open>readMemory\<close> of one byte succeeds at every
  address below it and reads 0. And on any engine that still has this memory and logical
  size (no write happened, the registers are arbitrary) every load, of a byte or of a
  word, whose condition passes and whose bytes lie below it returns true and leaves the
  value read, 0, in Rd; only a post-indexed load with Rn = Rd leaves the written-back
  address there instead.
\<close>

theorem fresh_memory_is_readable:
  assumes "init calloc_ok s0 n = (True, s)"
  shows "getMemorySize s = (if n > 0 then n else 64 * 1024 * 1024)
     \<and> getMemorySize s \<noteq> 0
     \<and> (\<forall>a. a < getMemorySize s \<longrightarrow> readMemory s a 1 = Some (True, [0]))
     \<and> (\<forall>t i. memory t = memory s \<and> memorySize t = memorySize s
            \<and> (field i 26 0x3 = 0x1 \<or> (field i 26 0x3 = 0x0 \<and> field i 25 0x1 = 1))
            \<and> checkCondition t (field i 28 0xF) \<and> flag i 20
            \<and> unat (loadStoreAddress t i) + accessWidth i \<le> unat (getMemorySize s)
            \<longrightarrow> (\<exists>t'. executeInstruction t i = Some (True, t')
                   \<and> (length (registers t) = 17 \<longrightarrow>
                        registers t' ! unat (field i 12 0xF)
                          = (if \<not> flag i 24 \<and> field i 16 0xF = field i 12 0xF
                             then indexedAddress t i else 0))))"
proof -
  note i = init_True [OF assms]
  let ?buf = "replicate (unat (memoryCapacity s)) (0 :: u8)"
  from i have mem: "memory s = Some ?buf" and sz: "memorySize s = memoryCapacity s"
    and cap: "memoryCapacity s = (if n > 0 then n else 64 * 1024 * 1024)"
    by simp_all
  have fit: "unat (memorySize s) \<le> length ?buf" using sz by simp
  from sz cap have s1: "getMemorySize s = (if n > 0 then n else 64 * 1024 * 1024)"
    by (simp add: getMemorySize_def)
  then have s2: "getMemorySize s \<noteq> 0"
    by (auto simp add: word_greater_zero_iff split: if_splits)
  have r: "readMemory s a 1 = Some (True, [0])" if "a < getMemorySize s" for a
  proof -
    from that have a: "a < memorySize s" by (simp add: getMemorySize_def)
    then have "unat a < unat (memoryCapacity s)" using sz by (simp add: word_less_nat_alt)
    with readMemory_byte [OF mem fit a] show ?thesis by simp
  qed
  have l: "\<exists>t'. executeInstruction t i = Some (True, t')
             \<and> (length (registers t) = 17 \<longrightarrow>
                  registers t' ! unat (field i 12 0xF)
                    = (if \<not> flag i 24 \<and> field i 16 0xF = field i 12 0xF
                       then indexedAddress t i else 0))"
    if h: "memory t = memory s" "memorySize t = memorySize s"
      "field i 26 0x3 = 0x1 \<or> (field i 26 0x3 = 0x0 \<and> field i 25 0x1 = 1)"
      "checkCondition t (field i 28 0xF)" "flag i 20"
      "unat (loadStoreAddress t i) + accessWidth i \<le> unat (getMemorySize s)" for t i
  proof -
    let ?a = "unat (loadStoreAddress t i)"
    have m: "memory t = Some ?buf" using h(1) mem by simp
    have f: "unat (memorySize t) \<le> length ?buf" using h(2) fit by simp
    have g: "?a + accessWidth i \<le> unat (memorySize t)"
      using h(2,6) by (simp add: getMemorySize_def)
    with h(2) sz have inb: "?a + accessWidth i \<le> unat (memoryCapacity s)" by simp
    have b: "ucast (?buf ! ?a) = (0 :: u32)" if "flag i 22"
      using that inb by (simp add: accessWidth_def)
    have w: "load32 ?buf ?a = 0" if "\<not> flag i 22"
      using that inb by (intro load32_zero) (simp add: accessWidth_def)
    from load_in_range [OF m f h(3) h(4) h(5) g] b w show ?thesis
      by (auto split: if_splits)
  qed
  from s1 s2 r l show ?thesis by blast
qed

text \<open>
  \<^verbatim>\<open>init(16)\<close> on a new engine, a read at address 5, and the word load LDR SP, [R1, #0]
  with R1 = 5: R13 holds 12 before the load and 0 after it.
\<close>

theorem fresh_memory_is_readable_witness:
  "init True createEmulator 16 = (True, engine16)
   \<and> getMemorySize engine16 = 16
   \<and> (5 :: u32) < getMemorySize engine16
   \<and> readMemory engine16 5 1 = Some (True, [0])
   \<and> memory engineA = memory engine16 \<and> memorySize engineA = memorySize engine16
   \<and> field 0xE791D000 26 0x3 = 0x1
   \<and> checkCondition engineA (field 0xE791D000 28 0xF)
   \<and> flag 0xE791D000 20 \<and> \<not> flag 0xE791D000 22
   \<and> unat (loadStoreAddress engineA 0xE791D000) + accessWidth 0xE791D000
        \<le> unat (getMemorySize engine16)
   \<and> length (registers engineA) = 17
   \<and> registers engineA ! 13 = 12
   \<and> map_option (\<lambda>(ok, t'). (ok, registers t' ! 13)) (executeInstruction engineA 0xE791D000)
        = Some (True, 0)"
proof -
  have h: "init True createEmulator 16 = (True, engine16)"
    by (simp add: engine16_def init_def createEmulator_def Let_def)
  note T = fresh_memory_is_readable [OF h]
  from T have sz: "getMemorySize engine16 = 16" by simp
  then have lt: "(5 :: u32) < getMemorySize engine16" by simp
  from T lt have rd: "readMemory engine16 5 1 = Some (True, [0])" by blast
  have m: "memory engineA = memory engine16" "memorySize engineA = memorySize engine16"
    by (simp_all add: engineA_eq engine16_eq)
  have f: "field 0xE791D000 26 0x3 = 0x1" by (simp add: field_def)
  have c: "checkCondition engineA (field 0xE791D000 28 0xF)"
    by (simp add: checkCondition_def field_def)
  have l: "flag 0xE791D000 20" "\<not> flag 0xE791D000 22" "flag 0xE791D000 24"
    by (simp_all add: flag_def field_def)
  have a: "unat (loadStoreAddress engineA 0xE791D000) + accessWidth 0xE791D000
             \<le> unat (getMemorySize engine16)"
    by (simp add: sz loadStoreAddress_def indexedAddress_def loadStoreOffset_def
          accessWidth_def flag_def field_def engineA_eq)
  have n: "length (registers engineA) = 17" "registers engineA ! 13 = 12"
    by (simp_all add: engineA_eq)
  have d: "unat (field 0xE791D000 12 0xF) = 13" by (simp add: field_def)
  from T m f c l(1) a
  have "\<exists>t'. executeInstruction engineA 0xE791D000 = Some (True, t')
          \<and> (length (registers engineA) = 17 \<longrightarrow>
               registers t' ! unat (field 0xE791D000 12 0xF)
                 = (if \<not> flag 0xE791D000 24 \<and> field 0xE791D000 16 0xF = field 0xE791D000 12 0xF
                    then indexedAddress engineA 0xE791D000 else 0))"
    by blast
  with n(1) l(3) d
  have "map_option (\<lambda>(ok, t'). (ok, registers t' ! 13)) (executeInstruction engineA 0xE791D000)
          = Some (True, 0)"
    by auto
  with h sz lt rd m f c l(1,2) a n show ?thesis by (intro conjI)
qed

section \<open>Range checks in 32-bit arithmetic\<close>

text \<open>
  C10: the range checks add address and length in \<^verbatim>\<open>uint32_t\<close>. On an initialized engine
  with a logical size of at least 2, \<^verbatim>\<open>readMemory(0xFFFFFFFF, 2)\<close> passes its check, the
  wrapped sum being 1, although the exact sum is above the logical size; and so does a
  word load or store whose address is \<open>0xFFFFFFFE\<close>, the wrapped sum being 2. Neither call
  returns false: both go on to bytes outside the buffer, which is the result \<open>None\<close>.
\<close>

theorem range_check_wraps:
  assumes "initialized s" and "2 \<le> memorySize s"
    and "field i 26 0x3 = 0x1 \<or> (field i 26 0x3 = 0x0 \<and> field i 25 0x1 = 1)"
    and "checkCondition s (field i 28 0xF)"
    and "\<not> flag i 22"
    and "loadStoreAddress s i = 0xFFFFFFFE"
  shows "\<not> (0xFFFFFFFF + 2 > memorySize s)
     \<and> unat (memorySize s) < unat (0xFFFFFFFF :: u32) + unat (2 :: u32)
     \<and> readMemory s 0xFFFFFFFF 2 = None
     \<and> \<not> (loadStoreAddress s i + of_nat (accessWidth i) > memorySize s)
     \<and> unat (memorySize s) < unat (loadStoreAddress s i) + accessWidth i
     \<and> executeInstruction s i = None"
proof -
  from assms(1) obtain buf where buf: "memory s = Some buf" "length buf = unat (memoryCapacity s)"
    and le: "memorySize s \<le> memoryCapacity s"
    by (auto simp add: initialized_def)
  have cap: "unat (memoryCapacity s) < 2 ^ 32" using unsigned_less [of "memoryCapacity s"] by simp
  from le have szle: "unat (memorySize s) \<le> unat (memoryCapacity s)" by (simp add: word_le_nat_alt)
  have sum1: "(0xFFFFFFFF :: u32) + 2 = 1" by simp
  have sum2: "(0xFFFFFFFE :: u32) + 4 = 2" by simp
  from assms(2) have sz2: "2 \<le> unat (memorySize s)" by (simp add: word_le_nat_alt)
  have c1: "\<not> (0xFFFFFFFF + 2 > memorySize s)"
    unfolding sum1 using sz2 by (simp add: word_less_nat_alt)
  have c2: "unat (memorySize s) < unat (0xFFFFFFFF :: u32) + unat (2 :: u32)"
    using szle cap by simp
  have r: "readMemory s 0xFFFFFFFF 2 = None"
    using buf c1 cap by (simp add: readMemory_def)
  have w: "accessWidth i = 4" using assms(5) by (simp add: accessWidth_def)
  have "loadStoreAddress s i + of_nat (accessWidth i) = 2"
    unfolding assms(6) w using sum2 by simp
  then have c3: "\<not> (loadStoreAddress s i + of_nat (accessWidth i) > memorySize s)"
    using assms(2) by (simp add: not_less)
  have c4: "unat (memorySize s) < unat (loadStoreAddress s i) + accessWidth i"
    using assms(6) w szle cap by simp
  let ?s1 = "s\<lparr>instructionCount := instructionCount s + 1\<rparr>"
  from buf assms(3,4) have "executeInstruction s i = executeLoadStore ?s1 i"
    by (auto simp add: executeInstruction_def Let_def)
  moreover have "executeLoadStore ?s1 i = None"
    using buf c3 assms(6) w cap by (simp add: executeLoadStore_def Let_def)
  ultimately have e: "executeInstruction s i = None" by simp
  from c1 c2 r c3 c4 e show ?thesis by (intro conjI)
qed

text \<open>LDR R0, [R1, #0] with R1 = \<open>0xFFFFFFFE\<close> on the 16-byte engine.\<close>

theorem range_check_wraps_witness:
  "initialized engineB \<and> 2 \<le> memorySize engineB
   \<and> field 0xE7910000 26 0x3 = 0x1
   \<and> checkCondition engineB (field 0xE7910000 28 0xF)
   \<and> \<not> flag 0xE7910000 22
   \<and> loadStoreAddress engineB 0xE7910000 = 0xFFFFFFFE
   \<and> readMemory engineB 0xFFFFFFFF 2 = None
   \<and> executeInstruction engineB 0xE7910000 = None"
proof -
  have h1: "initialized engineB" by (simp add: engineB_eq initialized_def)
  have h2: "2 \<le> memorySize engineB" by (simp add: engineB_eq)
  have h3: "field 0xE7910000 26 0x3 = 0x1" by (simp add: field_def)
  have h4: "checkCondition engineB (field 0xE7910000 28 0xF)"
    by (simp add: checkCondition_def field_def)
  have h5: "\<not> flag 0xE7910000 22" by (simp add: flag_def field_def)
  have h6: "loadStoreAddress engineB 0xE7910000 = 0xFFFFFFFE"
    by (simp add: loadStoreAddress_def indexedAddress_def loadStoreOffset_def
          flag_def field_def engineB_eq)
  from range_check_wraps [OF h1 h2 disjI1 [OF h3] h4 h5 h6] h1 h2 h3 h4 h5 h6
  show ?thesis by simp
qed

section \<open>The pc, sp and lr members against R15, R13 and R14\<close>

text \<open>
  C1 asks that \<^verbatim>\<open>registers[13]\<close>, \<^verbatim>\<open>registers[14]\<close> and \<^verbatim>\<open>registers[15]\<close> equal the
  members sp, lr and pc after every operation. \<^verbatim>\<open>setPC\<close>, \<^verbatim>\<open>executeBranch\<close> and a load into
  R15 write both copies:
\<close>

lemma setPC_mirrors:
  "length (registers s) = 17 \<Longrightarrow> registers (setPC s v) ! 15 = pc (setPC s v)"
  by (simp add: setPC_def Let_def)

lemma executeBranch_mirrors:
  "length (registers s) = 17 \<Longrightarrow>
     registers (snd (executeBranch s i)) ! 15 = pc (snd (executeBranch s i))"
  by (simp add: executeBranch_def Let_def)

text \<open>
  C1 at four inputs where the other paths do not, on the 16-byte engine: MOV PC, R0
  with R0 = 4 sets the pc member to 4 and leaves R15 at 0; MOV SP, R0 sets R13 to 4 and
  leaves the sp member at 12; the post-indexed LDRB R0, [SP], #4 sets R13 to 16 and
  leaves the sp member at 12; \<^verbatim>\<open>setRegister(14, 7)\<close> sets R14 to 7 and leaves the lr
  member at 0.
\<close>

theorem shadow_registers_diverge:
  "map_option (\<lambda>(ok, s'). (ok, pc s', registers s' ! 15))
      (executeInstruction engineC 0xE1A0F010) = Some (True, 4, 0)
   \<and> map_option (\<lambda>(ok, s'). (ok, sp s', registers s' ! 13))
      (executeInstruction engineC 0xE1A0D010) = Some (True, 12, 4)
   \<and> map_option (\<lambda>(ok, s'). (ok, sp s', registers s' ! 13))
      (executeInstruction engine16 0xE6DD0004) = Some (True, 12, 16)
   \<and> (lr (setRegister engine16 14 7), registers (setRegister engine16 14 7) ! 14) = (0, 7)"
  by code_simp

end
